theory Spec2Isabelle
  imports Complex_Main "HOL-Library.Sublist" "HOL-Library.Log_Nat"
begin

section \<open>Values of the program\<close>

text \<open>
  The program (a Flask application, \<^verbatim>\<open>app.py\<close>) works on data decoded from JSON: the
  request body and the product records returned by the shopping-search service. The
  values are modelled as Python has them after \<^verbatim>\<open>json.loads\<close>.

  Scope of the model.
  \<^item> A Python \<^verbatim>\<open>str\<close> is a list of code points. Here a string is a \<open>char list\<close> whose
    characters are the code points below 256 (Latin-1). The character classes of Python
    that the program uses (\<^verbatim>\<open>str.isdigit\<close>, white space) are written out for this
    range.
  \<^item> A Python \<^verbatim>\<open>float\<close> is a binary64 value: a rational that the format represents,
    or one of the two infinities, or not-a-number. Every conversion and every arithmetic
    operation rounds its exact result to the nearest binary64 value, a tie going to the
    even significand, and gives an infinity on overflow. The two zeros are not
    distinguished: no result of the program depends on the sign of a zero.
\<close>

datatype pyfloat = Fin rat | PInf | NInf | NaN

datatype json =
    JNull
  | JBool bool
  | JInt int
  | JFloat pyfloat
  | JStr string
  | JArr "json list"
  | JObj "(string \<times> json) list"

text \<open>A product record is a dictionary from field names to values.\<close>

type_synonym product = "(string \<times> json) list"

text \<open>The exceptions that the modelled code can raise.\<close>

datatype error =
  AttributeError | TypeError | ValueError | OverflowError | ZeroDivisionError

text \<open>\<^verbatim>\<open>d.get(k, default)\<close>\<close>

definition dict_get :: "(string \<times> 'v) list \<Rightarrow> string \<Rightarrow> 'v \<Rightarrow> 'v" where
  "dict_get d k dflt = (case map_of d k of Some v \<Rightarrow> v | None \<Rightarrow> dflt)"

text \<open>Truth value of an object, as \<^verbatim>\<open>if x:\<close> tests it.\<close>

fun truthy :: "json \<Rightarrow> bool" where
  "truthy JNull = False"
| "truthy (JBool b) = b"
| "truthy (JInt n) = (n \<noteq> 0)"
| "truthy (JFloat f) = (f \<noteq> Fin 0)"
| "truthy (JStr s) = (s \<noteq> [])"
| "truthy (JArr xs) = (xs \<noteq> [])"
| "truthy (JObj kvs) = (kvs \<noteq> [])"

subsection \<open>Float arithmetic and comparison\<close>

text \<open>\<^verbatim>\<open>a <= b\<close> on floats: every comparison with not-a-number is false.\<close>

fun fle :: "pyfloat \<Rightarrow> pyfloat \<Rightarrow> bool" where
  "fle NaN _ = False"
| "fle _ NaN = False"
| "fle NInf _ = True"
| "fle _ PInf = True"
| "fle (Fin a) (Fin b) = (a \<le> b)"
| "fle (Fin a) NInf = False"
| "fle PInf (Fin b) = False"
| "fle PInf NInf = False"

text \<open>Rounding of a rational to the nearest integer, a tie going to the even one.\<close>

definition round_half_even :: "rat \<Rightarrow> int" where
  "round_half_even x =
     (let f = \<lfloor>x\<rfloor>; d = x - of_int f
      in if d < 1 / 2 then f else if 1 / 2 < d then f + 1 else if even f then f else f + 1)"

text \<open>
  The binary exponent of a positive rational \<open>m\<close>: the integer \<open>e\<close> with
  \<open>2 powi e \<le> m < 2 powi (e + 1)\<close>.
\<close>

definition ilog2 :: "rat \<Rightarrow> int" where
  "ilog2 m =
     (let (p, q) = quotient_of m; d = bitlen p - bitlen q
      in if 2 powi d \<le> m then d else d - 1)"

text \<open>
  Rounding of an exact result to binary64. The significand has 53 bits, so the spacing
  of the values around \<open>r\<close> is 2 to the power of the exponent of \<open>r\<close> minus 52; the
  exponent is at least \<open>-1022\<close> (below it the values are subnormal, down to zero). A
  result that rounds to \<open>2 ^ 1024\<close> or more is an infinity.
\<close>

definition round64 :: "rat \<Rightarrow> pyfloat" where
  "round64 r =
     (if r = 0 then Fin 0
      else
        (let m = \<bar>r\<bar>;
             q = 2 powi (max (ilog2 m) (- 1022) - 52);
             y = of_int (round_half_even (m / q)) * q
         in if 2 ^ 1024 \<le> y then (if r < 0 then NInf else PInf)
            else Fin (if r < 0 then - y else y)))"

text \<open>\<^verbatim>\<open>a + b\<close> on floats.\<close>

fun fadd :: "pyfloat \<Rightarrow> pyfloat \<Rightarrow> pyfloat" where
  "fadd NaN _ = NaN"
| "fadd _ NaN = NaN"
| "fadd PInf NInf = NaN"
| "fadd NInf PInf = NaN"
| "fadd PInf _ = PInf"
| "fadd _ PInf = PInf"
| "fadd NInf _ = NInf"
| "fadd _ NInf = NInf"
| "fadd (Fin a) (Fin b) = round64 (a + b)"

text \<open>
  The conversion of an integer to a float, as \<^verbatim>\<open>float(n)\<close> and the mixed arithmetic do
  it: the nearest float, and \<^verbatim>\<open>OverflowError\<close> when that is not finite.
\<close>

definition float_of_int :: "int \<Rightarrow> error + rat" where
  "float_of_int n = (case round64 (of_int n) of Fin r \<Rightarrow> Inr r | _ \<Rightarrow> Inl OverflowError)"

text \<open>
  \<^verbatim>\<open>a / n\<close> for a float \<open>a\<close> and a natural number \<open>n\<close>: the literal 100, or the length of
  a list. The integer is converted to a float \<open>d\<close>, which is positive, and the quotient
  \<open>fquot a d\<close> is rounded.
\<close>

fun fquot :: "pyfloat \<Rightarrow> rat \<Rightarrow> pyfloat" where
  "fquot (Fin x) d = round64 (x / d)"
| "fquot PInf d = PInf"
| "fquot NInf d = NInf"
| "fquot NaN d = NaN"

definition fdiv :: "pyfloat \<Rightarrow> nat \<Rightarrow> error + pyfloat" where
  "fdiv a n =
     (if n = 0 then Inl ZeroDivisionError
      else (case float_of_int (int n) of
              Inl e \<Rightarrow> Inl e
            | Inr d \<Rightarrow> Inr (fquot a d)))"

subsection \<open>Character classes\<close>

definition ascii_digit :: "char \<Rightarrow> bool" where
  "ascii_digit c = (48 \<le> (of_char c :: nat) \<and> (of_char c :: nat) \<le> 57)"

text \<open>
  \<^verbatim>\<open>str.isdigit\<close> on one character. Below 256 it holds for the ten decimal digits and
  for the superscripts two, three and one (U+00B2, U+00B3, U+00B9).
\<close>

definition isdigit :: "char \<Rightarrow> bool" where
  "isdigit c = (ascii_digit c \<or> (of_char c :: nat) \<in> {178, 179, 185})"

text \<open>
  White space as \<^verbatim>\<open>str.strip\<close> sees it (\<^verbatim>\<open>str.isspace\<close>). Below 256: U+0009 to
  U+000D, U+001C to U+001F, the space, U+0085 and U+00A0.
\<close>

definition isspace :: "char \<Rightarrow> bool" where
  "isspace c = (let n = (of_char c :: nat) in
     (9 \<le> n \<and> n \<le> 13) \<or> (28 \<le> n \<and> n \<le> 32) \<or> n = 133 \<or> n = 160)"

text \<open>
  White space as \<^verbatim>\<open>float\<close> strips it from a string: the ASCII white space U+0009 to
  U+000D and the space, and the white space beyond ASCII, which is U+0085 and U+00A0
  below 256. The separators U+001C to U+001F are not stripped.
\<close>

definition float_space :: "char \<Rightarrow> bool" where
  "float_space c = (let n = (of_char c :: nat) in
     (9 \<le> n \<and> n \<le> 13) \<or> n = 32 \<or> n = 133 \<or> n = 160)"

text \<open>Removal of the characters of a class at both ends of a string.\<close>

definition strip_by :: "(char \<Rightarrow> bool) \<Rightarrow> string \<Rightarrow> string" where
  "strip_by space s = rev (dropWhile space (rev (dropWhile space s)))"

text \<open>\<^verbatim>\<open>s.strip()\<close>\<close>

definition strip :: "string \<Rightarrow> string" where
  "strip s = strip_by isspace s"

text \<open>\<^verbatim>\<open>s.replace(c, '')\<close> for a one-character \<open>c\<close>: every occurrence is removed.\<close>

definition remove_char :: "char \<Rightarrow> string \<Rightarrow> string" where
  "remove_char c s = filter (\<lambda>x. x \<noteq> c) s"

text \<open>Lower case of an ASCII letter; other characters are unchanged.\<close>

definition ascii_lower :: "char \<Rightarrow> char" where
  "ascii_lower c = (let n = (of_char c :: nat) in
     if 65 \<le> n \<and> n \<le> 90 then char_of (n + 32) else c)"

subsection \<open>The built-in \<^verbatim>\<open>float\<close>\<close>

text \<open>
  \<^verbatim>\<open>float(s)\<close> for a string: an underscore is allowed between two digits only, and
  the underscores are removed; white space is stripped at both ends; what remains is an
  optional sign followed by \<^verbatim>\<open>inf\<close>, \<^verbatim>\<open>infinity\<close> or \<^verbatim>\<open>nan\<close> in any case, or by a
  decimal literal: digits with an optional point, at least one digit in all, and an
  optional exponent with at least one digit. Anything else raises \<^verbatim>\<open>ValueError\<close>.
  The value of a decimal literal is rounded to the nearest float; one beyond the range
  is an infinity.
\<close>

definition digits_val :: "string \<Rightarrow> nat" where
  "digits_val ds = foldl (\<lambda>a c. 10 * a + ((of_char c :: nat) - 48)) 0 ds"

fun underscores_ok :: "char \<Rightarrow> string \<Rightarrow> bool" where
  "underscores_ok prev [] = (prev \<noteq> CHR ''_'')"
| "underscores_ok prev (c # cs) =
     (if c = CHR ''_'' then ascii_digit prev \<and> underscores_ok c cs
      else (prev = CHR ''_'' \<longrightarrow> ascii_digit c) \<and> underscores_ok c cs)"

fun split_sign :: "string \<Rightarrow> bool \<times> string" where
  "split_sign [] = (False, [])"
| "split_sign (c # cs) =
     (if c = CHR ''-'' then (True, cs)
      else if c = CHR ''+'' then (False, cs)
      else (False, c # cs))"

text \<open>The exponent part: empty, or \<^verbatim>\<open>e\<close> or \<^verbatim>\<open>E\<close>, an optional sign and digits.\<close>

definition parse_exponent :: "string \<Rightarrow> int option" where
  "parse_exponent s =
     (case s of
        [] \<Rightarrow> Some 0
      | c # cs \<Rightarrow>
          if c = CHR ''e'' \<or> c = CHR ''E'' then
            (let (neg, ds) = split_sign cs in
             if ds \<noteq> [] \<and> list_all ascii_digit ds
             then Some (if neg then - int (digits_val ds) else int (digits_val ds))
             else None)
          else None)"

definition scale10 :: "rat \<Rightarrow> int \<Rightarrow> rat" where
  "scale10 r e = (if 0 \<le> e then r * 10 ^ nat e else r / 10 ^ nat (- e))"

definition parse_decimal :: "string \<Rightarrow> rat option" where
  "parse_decimal s =
     (let ip = takeWhile ascii_digit s;
          r1 = dropWhile ascii_digit s;
          (fp, r2) = (case r1 of
                        [] \<Rightarrow> ([], [])
                      | c # cs \<Rightarrow>
                          if c = CHR ''.''
                          then (takeWhile ascii_digit cs, dropWhile ascii_digit cs)
                          else ([], r1))
      in if ip = [] \<and> fp = [] then None
         else (case parse_exponent r2 of
                 None \<Rightarrow> None
               | Some e \<Rightarrow>
                   Some (scale10 (of_nat (digits_val (ip @ fp)) / 10 ^ length fp) e)))"

definition float_str :: "string \<Rightarrow> error + pyfloat" where
  "float_str s =
     (if \<not> underscores_ok (CHR 0x00) s then Inl ValueError
      else
        (let (neg, body) = split_sign (strip_by float_space (remove_char (CHR ''_'') s));
             low = map ascii_lower body
         in if low = ''inf'' \<or> low = ''infinity'' then Inr (if neg then NInf else PInf)
            else if low = ''nan'' then Inr NaN
            else (case parse_decimal body of
                    None \<Rightarrow> Inl ValueError
                  | Some r \<Rightarrow> Inr (round64 (if neg then - r else r)))))"

text \<open>
  \<^verbatim>\<open>float(x)\<close> for a decoded JSON value. An integer too large for a float raises
  \<^verbatim>\<open>OverflowError\<close>; \<^verbatim>\<open>None\<close>, a list and a dictionary raise \<^verbatim>\<open>TypeError\<close>.
\<close>

fun py_float :: "json \<Rightarrow> error + pyfloat" where
  "py_float JNull = Inl TypeError"
| "py_float (JBool b) = Inr (Fin (if b then 1 else 0))"
| "py_float (JInt n) =
     (case float_of_int n of Inl e \<Rightarrow> Inl e | Inr r \<Rightarrow> Inr (Fin r))"
| "py_float (JFloat f) = Inr f"
| "py_float (JStr s) = float_str s"
| "py_float (JArr xs) = Inl TypeError"
| "py_float (JObj kvs) = Inl TypeError"

section \<open>The budget filter\<close>

text \<open>The table \<^verbatim>\<open>budget_ranges\<close> of \<^verbatim>\<open>filter_by_budget\<close>.\<close>

definition budget_ranges :: "(string \<times> (pyfloat \<times> pyfloat)) list" where
  "budget_ranges =
     [(''Under $100'', (Fin 0, Fin 100)),
      (''$100 - $300'', (Fin 100, Fin 300)),
      (''$300 - $500'', (Fin 300, Fin 500)),
      (''$500 - $1000'', (Fin 500, Fin 1000)),
      (''Over $1000'', (Fin 1000, PInf))]"

text \<open>
  The digits of a price string:
  \<^verbatim>\<open>''.join(filter(str.isdigit, price_str.replace(',', '').replace('.', '')))\<close>
\<close>

definition price_digits :: "string \<Rightarrow> string" where
  "price_digits price_str =
     filter isdigit (remove_char (CHR ''.'') (remove_char (CHR '','') price_str))"

text \<open>
  The price of a digit string:
  \<^verbatim>\<open>float(price_num) / 100 if len(price_num) > 2 else float(price_num)\<close>
\<close>

definition price_of :: "string \<Rightarrow> error + pyfloat" where
  "price_of price_num =
     (if length price_num > 2
      then (case float_str price_num of Inl e \<Rightarrow> Inl e | Inr f \<Rightarrow> fdiv f 100)
      else float_str price_num)"

text \<open>
  The loop of \<^verbatim>\<open>filter_by_budget\<close> over the products, with the list \<^verbatim>\<open>filtered\<close>
  that it appends to. A price that is true but not a string has no \<^verbatim>\<open>replace\<close>: the
  call raises outside the \<^verbatim>\<open>try\<close>, and the exception leaves the function. An exception
  inside the \<^verbatim>\<open>try\<close> keeps the product.
\<close>

fun filter_loop ::
  "pyfloat \<Rightarrow> pyfloat \<Rightarrow> product list \<Rightarrow> product list \<Rightarrow> error + product list" where
  "filter_loop min_price max_price [] filtered = Inr filtered"
| "filter_loop min_price max_price (product # products) filtered =
     (let price_str = dict_get product ''price'' (JStr '''') in
      if truthy price_str then
        (case price_str of
           JStr s \<Rightarrow>
             (let price_num = price_digits s in
              if price_num \<noteq> [] then
                (case price_of price_num of
                   Inr price \<Rightarrow>
                     if fle min_price price \<and> fle price max_price
                     then filter_loop min_price max_price products (filtered @ [product])
                     else filter_loop min_price max_price products filtered
                 | Inl e \<Rightarrow>
                     filter_loop min_price max_price products (filtered @ [product]))
              else filter_loop min_price max_price products (filtered @ [product]))
         | _ \<Rightarrow> Inl AttributeError)
      else filter_loop min_price max_price products filtered)"

definition filter_by_budget :: "product list \<Rightarrow> string \<Rightarrow> error + product list" where
  "filter_by_budget products budget_range =
     (if budget_range = ''No preference'' then Inr products
      else (case map_of budget_ranges budget_range of
              None \<Rightarrow> Inr products
            | Some (min_price, max_price) \<Rightarrow> filter_loop min_price max_price products []))"

section \<open>The outbound calls\<close>

text \<open>
  The two services are outside the program. Each is modelled by what its client library
  does when the program calls it: it raises, with the text of the exception, or returns.
  The world fixes the outcome of every call from the arguments that the program sends.

  \<^verbatim>\<open>search_products_serper\<close> makes four library calls in its \<^verbatim>\<open>try\<close>:
  \<^verbatim>\<open>requests.post\<close> (raises on a transport error or a timeout),
  \<^verbatim>\<open>response.raise_for_status\<close> (raises on an error status),
  \<^verbatim>\<open>response.json\<close> (raises on a body that is not JSON) and \<^verbatim>\<open>data.get\<close> (raises when
  the decoded body is not a dictionary). The value under \<^verbatim>\<open>'shopping'\<close>, when the key is
  there, is a list of product records, as the annotation \<^verbatim>\<open>List[Dict]\<close> of the function
  declares.
\<close>

datatype http_result =
    PostRaised string
  | StatusRaised string
  | JsonRaised string
  | GetRaised string
  | Decoded "product list option"

datatype gen_result = GenRaised string | GenText string

record world =
  post :: "string \<Rightarrow> json \<Rightarrow> http_result"
  generate :: "product list \<Rightarrow> string \<Rightarrow> string \<Rightarrow> string \<Rightarrow> gen_result"

text \<open>What the program does to the outside, in order.\<close>

datatype event =
    SearchCall string json
  | GenerateCall "product list" string string string
  | Print string

definition search_products_serper ::
  "world \<Rightarrow> string \<Rightarrow> json \<Rightarrow> product list \<times> event list" where
  "search_products_serper w query num_results =
     (case post w query num_results of
        Decoded None \<Rightarrow> ([], [SearchCall query num_results])
      | Decoded (Some shopping) \<Rightarrow> (shopping, [SearchCall query num_results])
      | PostRaised e \<Rightarrow>
          ([], [SearchCall query num_results, Print (''Error fetching products: '' @ e)])
      | StatusRaised e \<Rightarrow>
          ([], [SearchCall query num_results, Print (''Error fetching products: '' @ e)])
      | JsonRaised e \<Rightarrow>
          ([], [SearchCall query num_results, Print (''Error fetching products: '' @ e)])
      | GetRaised e \<Rightarrow>
          ([], [SearchCall query num_results, Print (''Error fetching products: '' @ e)]))"

text \<open>
  \<^verbatim>\<open>get_ai_recommendations\<close> builds a prompt from the first ten products, the preference
  text, the budget label and the category, and sends it. The prompt text itself is not
  modelled: the world answers from the four values it is built from. Every exception in
  the body is caught and turned into a message.
\<close>

definition get_ai_recommendations ::
  "world \<Rightarrow> product list \<Rightarrow> string \<Rightarrow> string \<Rightarrow> string \<Rightarrow> string \<times> event list" where
  "get_ai_recommendations w products user_preferences budget_range category =
     (case generate w (take 10 products) user_preferences budget_range category of
        GenText text \<Rightarrow>
          (text, [GenerateCall (take 10 products) user_preferences budget_range category])
      | GenRaised e \<Rightarrow>
          (''Error generating recommendations: '' @ e,
           [GenerateCall (take 10 products) user_preferences budget_range category]))"

section \<open>The average rating\<close>

text \<open>
  \<^verbatim>\<open>[float(p.get('rating', 0)) for p in filtered_products if p.get('rating')]\<close>: the
  comprehension stops at the first \<^verbatim>\<open>float\<close> that raises.
\<close>

fun ratings_of :: "product list \<Rightarrow> error + pyfloat list" where
  "ratings_of [] = Inr []"
| "ratings_of (p # ps) =
     (if truthy (dict_get p ''rating'' JNull) then
        (case py_float (dict_get p ''rating'' (JInt 0)) of
           Inl e \<Rightarrow> Inl e
         | Inr x \<Rightarrow> (case ratings_of ps of Inl e \<Rightarrow> Inl e | Inr xs \<Rightarrow> Inr (x # xs)))
      else ratings_of ps)"

text \<open>
  \<^verbatim>\<open>sum(ratings)\<close>: the float additions from left to right, starting from the integer
  0, as the built-in does up to CPython 3.11. (From 3.12 on it carries a compensation
  term as well, which is not modelled.)
\<close>

definition py_sum :: "pyfloat list \<Rightarrow> pyfloat" where
  "py_sum xs = foldl fadd (Fin 0) xs"

text \<open>The statistics block of the handler, up to the value of \<^verbatim>\<open>avg_rating\<close>.\<close>

definition avg_rating :: "product list \<Rightarrow> error + pyfloat" where
  "avg_rating filtered_products =
     (if filtered_products \<noteq> [] then
        (case ratings_of filtered_products of
           Inl e \<Rightarrow> Inl e
         | Inr ratings \<Rightarrow>
             if ratings \<noteq> [] then fdiv (py_sum ratings) (length ratings)
             else Inr (Fin 0))
      else Inr (Fin 0))"

text \<open>
  \<^verbatim>\<open>round(x, 1)\<close>: the exact value of the float is rounded to one decimal, a tie going
  to the even neighbour, and the float nearest to that decimal is the result; an
  infinity and not-a-number are unchanged.
\<close>

fun py_round1 :: "pyfloat \<Rightarrow> pyfloat" where
  "py_round1 (Fin r) = round64 (of_int (round_half_even (r * 10)) / 10)"
| "py_round1 f = f"

section \<open>The request handler\<close>

text \<open>
  The JSON body of a request to \<^verbatim>\<open>/search\<close>. A field is \<open>None\<close> when the body has no
  such key; then \<^verbatim>\<open>data.get\<close> gives the default. The fields have the types of the
  interface: strings, and a list of strings for the feature priorities.
\<close>

record request_data =
  rq_query :: "string option"
  rq_category :: "string option"
  rq_budget_range :: "string option"
  rq_num_results :: "json option"
  rq_brand_preference :: "string option"
  rq_feature_priority :: "string list option"

text \<open>The body of a response: the \<^verbatim>\<open>error\<close> field alone, or the fields of a success.\<close>

record success_fields =
  products_found :: nat
  products_after_filter :: nat
  rounded_avg_rating :: pyfloat
  echoed_budget_range :: string
  ai_recommendations :: string
  returned_products :: "product list"

datatype body = ErrorBody string | SuccessBody success_fields

text \<open>A response: the HTTP status and the body. The status of a plain \<^verbatim>\<open>jsonify\<close> is 200.\<close>

datatype response = Response nat body

text \<open>\<^verbatim>\<open>', '.join(xs)\<close>\<close>

fun join_comma :: "string list \<Rightarrow> string" where
  "join_comma [] = ''''"
| "join_comma [x] = x"
| "join_comma (x # y # ys) = x @ '', '' @ join_comma (y # ys)"

definition get_or :: "'a option \<Rightarrow> 'a \<Rightarrow> 'a" where
  "get_or v dflt = (case v of Some x \<Rightarrow> x | None \<Rightarrow> dflt)"

text \<open>
  The search string (the block \<^verbatim>\<open># Create enhanced query\<close> of the handler): the category
  in front unless it is \<^verbatim>\<open>"Other"\<close>, the brand behind when there is one.
\<close>

definition enhanced_query :: "string \<Rightarrow> string \<Rightarrow> string \<Rightarrow> string" where
  "enhanced_query user_query category brand_preference =
     (let q = (if category \<noteq> ''Other'' then category @ '' '' @ user_query else user_query)
      in if brand_preference \<noteq> [] then q @ '' '' @ brand_preference else q)"

text \<open>The preference text (the block \<^verbatim>\<open># Build enhanced preferences\<close>).\<close>

definition preferences_text :: "string \<Rightarrow> string list \<Rightarrow> string \<Rightarrow> string" where
  "preferences_text user_query feature_priority brand_preference =
     (let t = (if feature_priority \<noteq> []
               then user_query @ ''. Important features: '' @ join_comma feature_priority
               else user_query)
      in if brand_preference \<noteq> [] then t @ ''. Preferred brand: '' @ brand_preference
         else t)"

text \<open>
  The handler \<^verbatim>\<open>search\<close>. It gives the response, or the exception that leaves it, and
  the events in the order they happened.
\<close>

definition search :: "world \<Rightarrow> request_data \<Rightarrow> (error + response) \<times> event list" where
  "search w data =
     (let user_query = get_or (rq_query data) '''';
          category = get_or (rq_category data) ''Other'';
          budget_range = get_or (rq_budget_range data) ''No preference'';
          num_results = get_or (rq_num_results data) (JInt 10);
          brand_preference = get_or (rq_brand_preference data) '''';
          feature_priority = get_or (rq_feature_priority data) []
      in
      if strip user_query = [] then
        (Inr (Response 400 (ErrorBody ''Please enter a search query'')), [])
      else
        (let (products, ev1) =
               search_products_serper w
                 (enhanced_query user_query category brand_preference) num_results
         in
         if products = [] then
           (Inr (Response 404
              (ErrorBody ''No products found. Try adjusting your search query.'')), ev1)
         else
           (case filter_by_budget products budget_range of
              Inl e \<Rightarrow> (Inl e, ev1)
            | Inr filtered_products \<Rightarrow>
                (let (recommendations, ev2) =
                       get_ai_recommendations w filtered_products
                         (preferences_text user_query feature_priority brand_preference)
                         budget_range category
                 in
                 (case avg_rating filtered_products of
                    Inl e \<Rightarrow> (Inl e, ev1 @ ev2)
                  | Inr avg \<Rightarrow>
                      (Inr (Response 200 (SuccessBody
                         \<lparr>products_found = length products,
                          products_after_filter = length filtered_products,
                          rounded_avg_rating = py_round1 avg,
                          echoed_budget_range = budget_range,
                          ai_recommendations = recommendations,
                          returned_products = filtered_products\<rparr>)),
                       ev1 @ ev2))))))"

section \<open>Notions used by the properties\<close>

text \<open>A budget label is recognized when it is a key of \<^verbatim>\<open>budget_ranges\<close>.\<close>

definition recognized :: "string \<Rightarrow> bool" where
  "recognized budget_range = (budget_range \<in> set (map fst budget_ranges))"

text \<open>
  The products on which the loop does not raise: the price is a string, or it is a false
  value (absent, \<^verbatim>\<open>None\<close>, zero, empty).
\<close>

definition price_readable :: "product \<Rightarrow> bool" where
  "price_readable p =
     (case dict_get p ''price'' (JStr '''') of JStr s \<Rightarrow> True | v \<Rightarrow> \<not> truthy v)"

text \<open>The decision of one iteration of the loop that does not raise.\<close>

definition kept :: "pyfloat \<Rightarrow> pyfloat \<Rightarrow> product \<Rightarrow> bool" where
  "kept min_price max_price p =
     (case dict_get p ''price'' (JStr '''') of
        JStr s \<Rightarrow>
          s \<noteq> [] \<and>
          (price_digits s = [] \<or>
           (case price_of (price_digits s) of
              Inl e \<Rightarrow> True
            | Inr price \<Rightarrow> fle min_price price \<and> fle price max_price))
      | _ \<Rightarrow> False)"

text \<open>
  Price parsing in the words of the specification: the decimal digits of the price string
  after commas and periods are stripped, read as an integer; with more than two digits
  the last two are cents, and the number is divided by 100. The price is a float: the
  integer is converted, and the quotient is the float quotient.
\<close>

definition spec_digits :: "string \<Rightarrow> string" where
  "spec_digits price_str =
     filter ascii_digit (filter (\<lambda>c. c \<noteq> CHR '','' \<and> c \<noteq> CHR ''.'') price_str)"

definition spec_price :: "string \<Rightarrow> pyfloat" where
  "spec_price price_str =
     (let ds = spec_digits price_str; whole = round64 (of_nat (digits_val ds))
      in if length ds > 2 then fquot whole 100 else whole)"


text \<open>The events that are calls of the generation step.\<close>

fun is_generate_call :: "event \<Rightarrow> bool" where
  "is_generate_call (GenerateCall ps prefs b c) = True"
| "is_generate_call _ = False"

text \<open>The outcomes of the search call in which a library call raised.\<close>

fun search_failed :: "http_result \<Rightarrow> bool" where
  "search_failed (Decoded shopping) = False"
| "search_failed _ = True"

section \<open>Lemmas on the budget filter\<close>

lemma filter_loop_returns:
  "list_all price_readable ps \<Longrightarrow>
   filter_loop mn mx ps acc = Inr (acc @ filter (kept mn mx) ps)"
proof (induction ps arbitrary: acc)
  case Nil
  then show ?case by simp
next
  case (Cons p ps)
  then have r: "price_readable p" and rs: "list_all price_readable ps" by simp_all
  note IH = Cons.IH [OF rs]
  show ?case
  proof (cases "dict_get p ''price'' (JStr '''')")
    case (JStr s)
    then show ?thesis
      by (simp add: IH kept_def Let_def split: sum.splits)
  qed (use r in \<open>simp_all add: IH kept_def price_readable_def\<close>)
qed

lemma filter_loop_raises:
  "\<not> list_all price_readable ps \<Longrightarrow> filter_loop mn mx ps acc = Inl AttributeError"
proof (induction ps arbitrary: acc)
  case Nil
  then show ?case by simp
next
  case (Cons p ps)
  show ?case
  proof (cases "price_readable p")
    case True
    with Cons.prems have "\<not> list_all price_readable ps" by simp
    note IH = Cons.IH [OF this]
    show ?thesis
    proof (cases "dict_get p ''price'' (JStr '''')")
      case (JStr s)
      then show ?thesis by (simp add: IH Let_def split: sum.splits)
    qed (use True in \<open>simp_all add: IH price_readable_def\<close>)
  next
    case False
    then show ?thesis
      by (cases "dict_get p ''price'' (JStr '''')") (simp_all add: price_readable_def)
  qed
qed

lemma filter_loop_Inr:
  "filter_loop mn mx ps acc = Inr out \<Longrightarrow>
   list_all price_readable ps \<and> out = acc @ filter (kept mn mx) ps"
  using filter_loop_returns [of ps mn mx acc] filter_loop_raises [of ps mn mx acc]
  by (cases "list_all price_readable ps") auto

lemma recognized_range:
  "recognized b \<Longrightarrow> \<exists>mn mx. map_of budget_ranges b = Some (mn, mx)"
  by (auto simp: recognized_def budget_ranges_def)

lemma filter_by_budget_range:
  "map_of budget_ranges b = Some (mn, mx) \<Longrightarrow>
   filter_by_budget ps b = filter_loop mn mx ps []"
  by (auto simp: filter_by_budget_def budget_ranges_def split: if_splits)

lemma filter_by_budget_Inr:
  assumes "map_of budget_ranges b = Some (mn, mx)" "filter_by_budget ps b = Inr out"
  shows "list_all price_readable ps" "out = filter (kept mn mx) ps"
  using filter_loop_Inr [of mn mx ps "[]" out] assms
  by (simp_all add: filter_by_budget_range)

lemma range_ordered:
  "map_of budget_ranges b = Some (mn, mx) \<Longrightarrow> fle mn mx"
  by (auto simp: budget_ranges_def split: if_splits)

section \<open>Lemmas on rounding\<close>

lemma bitlen_pos: "0 < p \<Longrightarrow> 1 \<le> bitlen p"
  using bitlen_eq_zero_iff [of p] bitlen_nonneg [of p] by linarith

lemma of_int_bitlen_bounds:
  assumes "0 < p"
  shows "2 powi (bitlen p - 1) \<le> (of_int p :: rat)" "(of_int p :: rat) < 2 powi bitlen p"
proof -
  from bitlen_bounds [OF assms]
  have a: "2 ^ nat (bitlen p - 1) \<le> p" and b: "p < 2 ^ nat (bitlen p)"
    by simp_all
  from bitlen_pos [OF assms] have n: "0 \<le> bitlen p - 1" "0 \<le> bitlen p"
    by simp_all
  from a have "(of_int (2 ^ nat (bitlen p - 1)) :: rat) \<le> of_int p"
    by (simp only: of_int_le_iff)
  then show "2 powi (bitlen p - 1) \<le> (of_int p :: rat)"
    using n by (simp add: power_int_nonneg_exp)
  from b have "(of_int p :: rat) < of_int (2 ^ nat (bitlen p))"
    by (simp only: of_int_less_iff)
  then show "(of_int p :: rat) < 2 powi bitlen p"
    using n by (simp add: power_int_nonneg_exp)
qed

lemma ilog2_bounds:
  assumes "0 < m"
  shows "2 powi ilog2 m \<le> m" "m < 2 powi (ilog2 m + 1)"
proof -
  obtain p q where pq: "quotient_of m = (p, q)"
    by (cases "quotient_of m") auto
  then have q: "0 < q" and m: "m = of_int p / of_int q"
    by (simp_all add: quotient_of_denom_pos quotient_of_div)
  with assms have p: "0 < p"
    by (simp add: zero_less_divide_iff)
  let ?d = "bitlen p - bitlen q"
  note bp = of_int_bitlen_bounds [OF p] and bq = of_int_bitlen_bounds [OF q]
  have qpos: "(0::rat) < of_int q"
    using q by simp
  have up: "m < 2 powi (?d + 1)"
  proof -
    have "m < 2 powi bitlen p / of_int q"
      unfolding m using bp(2) qpos by (simp add: divide_strict_right_mono)
    also have "\<dots> \<le> 2 powi bitlen p / 2 powi (bitlen q - 1)"
      using bq(1) qpos by (intro divide_left_mono mult_pos_pos) simp_all
    also have "\<dots> = 2 powi (?d + 1)"
      by (simp add: power_int_diff [symmetric] algebra_simps)
    finally show ?thesis .
  qed
  have lo: "2 powi (?d - 1) < m"
  proof -
    have "2 powi (?d - 1) = 2 powi (bitlen p - 1) / (2 powi bitlen q :: rat)"
      by (simp add: power_int_diff [symmetric] algebra_simps)
    also have "\<dots> < 2 powi (bitlen p - 1) / of_int q"
      using bq(2) qpos by (intro divide_strict_left_mono) simp_all
    also have "\<dots> \<le> m"
      unfolding m using bp(1) qpos by (simp add: divide_right_mono)
    finally show ?thesis .
  qed
  have i: "ilog2 m = (if 2 powi ?d \<le> m then ?d else ?d - 1)"
    by (simp add: ilog2_def pq)
  show "2 powi ilog2 m \<le> m"
    using lo by (simp add: i)
  show "m < 2 powi (ilog2 m + 1)"
    using up by (auto simp: i not_le)
qed

lemma ilog2_eqI:
  assumes "2 powi e \<le> m" "m < 2 powi (e + 1)"
  shows "ilog2 m = e"
proof -
  have "(0::rat) < 2 powi e"
    by simp
  with assms(1) have pos: "0 < m"
    by linarith
  note b = ilog2_bounds [OF pos]
  have "\<not> ilog2 m < e"
  proof
    assume "ilog2 m < e"
    then have "ilog2 m + 1 \<le> e"
      by simp
    then have "(2::rat) powi (ilog2 m + 1) \<le> 2 powi e"
      by (intro power_int_increasing) simp_all
    with b(2) assms(1) show False
      by linarith
  qed
  moreover have "\<not> e < ilog2 m"
  proof
    assume "e < ilog2 m"
    then have "e + 1 \<le> ilog2 m"
      by simp
    then have "(2::rat) powi (e + 1) \<le> 2 powi ilog2 m"
      by (intro power_int_increasing) simp_all
    with b(1) assms(2) show False
      by linarith
  qed
  ultimately show ?thesis
    by linarith
qed

lemma round_half_even_of_int: "round_half_even (of_int j) = j"
  by (simp add: round_half_even_def)

lemma round_half_even_eqI:
  assumes "of_int z - 1 / 2 < x" "x < of_int z + 1 / 2"
  shows "round_half_even x = z"
proof (cases "of_int z \<le> x")
  case True
  with assms(2) have "\<lfloor>x\<rfloor> = z"
    by (intro floor_unique) simp_all
  with assms(2) show ?thesis
    by (simp add: round_half_even_def)
next
  case False
  with assms(1) have "\<lfloor>x\<rfloor> = z - 1"
    by (intro floor_unique) simp_all
  with assms(1) show ?thesis
    by (simp add: round_half_even_def)
qed

lemma round64_pos:
  assumes "2 powi e \<le> r" "r < 2 powi (e + 1)" "- 1022 \<le> e"
  shows "round64 r =
    (if 2 ^ 1024 \<le> of_int (round_half_even (r / 2 powi (e - 52))) * (2 powi (e - 52) :: rat)
     then PInf
     else Fin (of_int (round_half_even (r / 2 powi (e - 52))) * 2 powi (e - 52)))"
proof -
  have "(0::rat) < 2 powi e"
    by simp
  with assms(1) have pos: "0 < r"
    by linarith
  have "max (ilog2 \<bar>r\<bar>) (- 1022) = e"
    using pos assms by (simp add: ilog2_eqI [of e r])
  then show ?thesis
    using pos by (simp add: round64_def Let_def)
qed

text \<open>The value of \<open>round64\<close> from bounds on the scaled argument, away from a tie.\<close>

lemma round64_eqI:
  assumes "2 powi e \<le> r" "r < 2 powi (e + 1)" "- 1022 \<le> e"
    and "of_int z - 1 / 2 < r / 2 powi (e - 52)" "r / 2 powi (e - 52) < of_int z + 1 / 2"
    and "of_int z * 2 powi (e - 52) < (2::rat) ^ 1024"
  shows "round64 r = Fin (of_int z * 2 powi (e - 52))"
  using assms(6)
  by (simp add: round64_pos [OF assms(1-3)] round_half_even_eqI [OF assms(4,5)])

text \<open>A natural number below \<open>2 ^ 53\<close> is a float.\<close>

lemma round64_of_nat:
  assumes "n < 2 ^ 53"
  shows "round64 (of_nat n) = Fin (of_nat n)"
proof (cases "n = 0")
  case True
  then show ?thesis by (simp add: round64_def)
next
  case False
  let ?r = "of_nat n :: rat"
  let ?e = "ilog2 ?r"
  from False have pos: "0 < ?r"
    by simp
  note b = ilog2_bounds [OF pos]
  from assms have below: "?r < 2 ^ 53"
    by (metis of_nat_less_iff of_nat_numeral of_nat_power)
  have lo: "0 \<le> ?e"
  proof (rule ccontr)
    assume "\<not> 0 \<le> ?e"
    then have "?e + 1 \<le> 0"
      by simp
    then have "(2::rat) powi (?e + 1) \<le> 2 powi 0"
      by (intro power_int_increasing) simp_all
    moreover from False have "1 \<le> ?r"
      by simp
    ultimately show False
      using b(2) by simp
  qed
  have hi: "?e \<le> 52"
  proof (rule ccontr)
    assume "\<not> ?e \<le> 52"
    then have "53 \<le> ?e"
      by simp
    then have "(2::rat) powi 53 \<le> 2 powi ?e"
      by (intro power_int_increasing) simp_all
    with below show False
      using b(1) by simp
  qed
  define k where "k = nat (52 - ?e)"
  have q: "(2::rat) powi (?e - 52) = 1 / 2 ^ k"
    using hi by (simp add: k_def power_int_def inverse_eq_divide power_one_over)
  have int: "?r / (1 / 2 ^ k) = of_int (int n * 2 ^ k)"
    by simp
  have small: "\<not> (2::rat) ^ 1024 \<le> ?r"
  proof -
    have "(2::rat) ^ 53 \<le> 2 ^ 1024"
      by (intro power_increasing) simp_all
    with below show ?thesis
      by linarith
  qed
  have "round64 ?r =
    (if 2 ^ 1024 \<le> of_int (round_half_even (?r / 2 powi (?e - 52))) * (2 powi (?e - 52) :: rat)
     then PInf
     else Fin (of_int (round_half_even (?r / 2 powi (?e - 52))) * 2 powi (?e - 52)))"
    using b lo by (intro round64_pos) simp_all
  also have "\<dots> = Fin ?r"
    unfolding q int round_half_even_of_int using small by simp
  finally show ?thesis .
qed

lemma round64_numeral:
  "numeral k < (2::nat) ^ 53 \<Longrightarrow> round64 (numeral k) = Fin (numeral k)"
  using round64_of_nat [of "numeral k"] by simp

lemma round64_simple: "round64 0 = Fin 0" "round64 1 = Fin 1"
  using round64_of_nat [of 0] round64_of_nat [of 1] by simp_all

lemma float_of_int_of_nat:
  "n < 2 ^ 53 \<Longrightarrow> float_of_int (int n) = Inr (of_nat n)"
  using round64_of_nat [of n] by (simp add: float_of_int_def)

lemma fdiv_of_nat:
  "0 < n \<Longrightarrow> n < 2 ^ 53 \<Longrightarrow> fdiv a n = Inr (fquot a (of_nat n))"
  by (simp add: fdiv_def float_of_int_of_nat)

lemma fdiv_numeral:
  "numeral k < (2::nat) ^ 53 \<Longrightarrow> fdiv a (numeral k) = Inr (fquot a (numeral k))"
  using fdiv_of_nat [of "numeral k" a] by simp

lemma fdiv_100: "fdiv a 100 = Inr (fquot a 100)"
  by (simp add: fdiv_numeral)

text \<open>The floats of the examples.\<close>

lemma round64_examples:
  "round64 (129999 / 100) = Fin (5717416483970089 / 4398046511104)"
  "round64 (30001 / 100) = Fin (1319457933796311 / 4398046511104)"
  "round64 (9 / 2) = Fin (9 / 2)"
  "round64 (15 / 2) = Fin (15 / 2)"
  "round64 (15 / 4) = Fin (15 / 4)"
  using round64_eqI [of 10 "129999 / 100" 5717416483970089]
    round64_eqI [of 8 "30001 / 100" 5277831735185244]
    round64_eqI [of 2 "9 / 2" "9 * 2 ^ 49"]
    round64_eqI [of 2 "15 / 2" "15 * 2 ^ 49"]
    round64_eqI [of 1 "15 / 4" "15 * 2 ^ 49"]
  by simp_all

section \<open>Lemmas on \<^verbatim>\<open>float\<close> of a digit string\<close>

lemma ascii_digit_not_special:
  assumes "ascii_digit c"
  shows "c \<noteq> CHR ''_''" "c \<noteq> CHR ''-''" "c \<noteq> CHR ''+''" "c \<noteq> CHR ''.''"
    "\<not> float_space c" "ascii_lower c = c" "c \<noteq> CHR ''i''" "c \<noteq> CHR ''n''"
  using assms by (auto simp: ascii_digit_def float_space_def ascii_lower_def Let_def)

lemma strip_digits:
  assumes "list_all ascii_digit ds"
  shows "strip_by float_space ds = ds"
proof (cases "ds = []")
  case True
  then show ?thesis by (simp add: strip_by_def)
next
  case False
  with assms have "ascii_digit (hd ds)" "ascii_digit (last ds)"
    by (simp_all add: list_all_iff)
  then have h: "\<not> float_space (hd ds)" and l: "\<not> float_space (hd (rev ds))"
    using False by (simp_all add: ascii_digit_not_special hd_rev)
  from h have "dropWhile float_space ds = ds"
    by (simp add: dropWhile_eq_self_iff)
  moreover from l have "dropWhile float_space (rev ds) = rev ds"
    by (simp add: dropWhile_eq_self_iff)
  ultimately show ?thesis by (simp add: strip_by_def)
qed

lemma underscores_ok_digits:
  "list_all ascii_digit ds \<Longrightarrow> prev \<noteq> CHR ''_'' \<Longrightarrow> underscores_ok prev ds"
  by (induction ds arbitrary: prev) (auto simp: ascii_digit_not_special)

lemma remove_underscore_digits:
  "list_all ascii_digit ds \<Longrightarrow> remove_char (CHR ''_'') ds = ds"
  by (auto simp: remove_char_def list_all_iff ascii_digit_not_special)

lemma parse_decimal_digits:
  assumes "ds \<noteq> []" "list_all ascii_digit ds"
  shows "parse_decimal ds = Some (of_nat (digits_val ds))"
proof -
  from assms(2) have tw: "takeWhile ascii_digit ds = ds"
    and dw: "dropWhile ascii_digit ds = []"
    by (simp_all add: list_all_iff)
  show ?thesis
    unfolding parse_decimal_def Let_def tw dw
    using assms(1) by (simp add: parse_exponent_def scale10_def)
qed

lemma float_str_digits:
  assumes "ds \<noteq> []" "list_all ascii_digit ds"
  shows "float_str ds = Inr (round64 (of_nat (digits_val ds)))"
proof -
  from assms obtain c cs where ds: "ds = c # cs" and c: "ascii_digit c"
    by (cases ds) auto
  have sign: "split_sign ds = (False, ds)"
    using c by (simp add: ds ascii_digit_not_special)
  have low: "map ascii_lower ds = c # map ascii_lower cs"
    using c by (simp add: ds ascii_digit_not_special)
  have notword: "map ascii_lower ds \<noteq> ''inf''" "map ascii_lower ds \<noteq> ''infinity''"
    "map ascii_lower ds \<noteq> ''nan''"
    using c by (auto simp: low ascii_digit_not_special)
  show ?thesis
    using notword
    by (simp add: float_str_def strip_digits [OF assms(2)]
        underscores_ok_digits [OF assms(2)] remove_underscore_digits [OF assms(2)]
        sign parse_decimal_digits [OF assms])
qed

lemma price_of_digits:
  assumes "ds \<noteq> []" "list_all ascii_digit ds"
  shows "price_of ds =
    (if length ds > 2 then fdiv (round64 (of_nat (digits_val ds))) 100
     else Inr (round64 (of_nat (digits_val ds))))"
  by (simp add: price_of_def float_str_digits [OF assms])

lemma foldl_digits_bound:
  "list_all ascii_digit ds \<Longrightarrow>
   foldl (\<lambda>a c. 10 * a + ((of_char c :: nat) - 48)) a ds < (a + 1) * 10 ^ length ds"
proof (induction ds arbitrary: a)
  case Nil
  then show ?case by simp
next
  case (Cons c ds)
  from Cons.prems have ds: "list_all ascii_digit ds"
    by simp
  from Cons.prems have c: "(of_char c :: nat) - 48 \<le> 9"
    by (auto simp: ascii_digit_def)
  have "foldl (\<lambda>a c. 10 * a + ((of_char c :: nat) - 48)) (10 * a + (of_char c - 48)) ds
      < (10 * a + (of_char c - 48) + 1) * 10 ^ length ds"
    by (rule Cons.IH [OF ds])
  also have "\<dots> \<le> (10 * a + 10) * 10 ^ length ds"
    using c by (intro mult_right_mono) simp_all
  also have "\<dots> = (a + 1) * 10 ^ length (c # ds)"
    by (simp add: algebra_simps)
  finally show ?case
    by simp
qed

lemma digits_val_bound:
  "list_all ascii_digit ds \<Longrightarrow> digits_val ds < 10 ^ length ds"
  using foldl_digits_bound [of ds 0] by (simp add: digits_val_def)

section \<open>Evaluations at concrete inputs\<close>

lemma recognized_labels:
  "recognized ''Under $100''" "recognized ''$100 - $300''" "recognized ''$300 - $500''"
  "recognized ''$500 - $1000''" "recognized ''Over $1000''"
  by (simp_all add: recognized_def budget_ranges_def)

lemma price_digits_examples:
  "price_digits ''Free'' = ''''"
  "price_digits ''$45.00'' = ''4500''"
  "price_digits ''$150.00'' = ''15000''"
  "price_digits ''$100.00'' = ''10000''"
  "price_digits ''$1,299.99'' = ''129999''"
  by (simp_all add: price_digits_def remove_char_def isdigit_def ascii_digit_def)

lemma price_of_examples:
  "price_of ''4500'' = Inr (Fin 45)"
  "price_of ''15000'' = Inr (Fin 150)"
  "price_of ''10000'' = Inr (Fin 100)"
  "price_of ''129999'' = Inr (Fin (5717416483970089 / 4398046511104))"
  by (simp_all add: price_of_digits digits_val_def ascii_digit_def round64_numeral
      fdiv_100 round64_examples)

lemmas filter_eval =
  filter_by_budget_def budget_ranges_def dict_get_def price_digits_examples price_of_examples

section \<open>Fail-open on a price without digits\<close>

text \<open>
  C1, as stated, fails: a product with no \<^verbatim>\<open>price\<close> field is not kept. The test
  \<^verbatim>\<open>if price_str:\<close> has no \<^verbatim>\<open>else\<close>, so the loop appends nothing for it.
\<close>

theorem absent_price_dropped:
  "recognized ''Under $100'' \<and>
   map_of [(''title'', JStr ''Desk lamp'')] ''price'' = None \<and>
   filter_by_budget [[(''title'', JStr ''Desk lamp'')]] ''Under $100'' = Inr []"
  by (simp add: recognized_labels filter_eval)

text \<open>
  C1, amended: for every recognized budget label, a product whose price is a non-empty
  string without any digit character is in the output of \<^verbatim>\<open>filter_by_budget\<close>.
\<close>

theorem no_digit_price_kept:
  assumes "recognized b"
    and "filter_by_budget ps b = Inr out"
    and "p \<in> set ps"
    and "map_of p ''price'' = Some (JStr s)"
    and "s \<noteq> []"
    and "price_digits s = []"
  shows "p \<in> set out"
proof -
  from assms(1) obtain mn mx where r: "map_of budget_ranges b = Some (mn, mx)"
    using recognized_range by blast
  have "kept mn mx p"
    using assms(4-6) by (simp add: kept_def dict_get_def)
  with filter_by_budget_Inr(2) [OF r assms(2)] assms(3) show ?thesis by simp
qed

theorem no_digit_price_kept_witness:
  "recognized ''Over $1000'' \<and>
   filter_by_budget [[(''price'', JStr ''$45.00'')], [(''price'', JStr ''Free'')]] ''Over $1000''
     = Inr [[(''price'', JStr ''Free'')]] \<and>
   map_of [(''price'', JStr ''Free'')] ''price'' = Some (JStr ''Free'') \<and>
   price_digits ''Free'' = [] \<and>
   [(''price'', JStr ''Free'')] \<in> set [[(''price'', JStr ''Free'')]]"
proof -
  have f: "filter_by_budget [[(''price'', JStr ''$45.00'')], [(''price'', JStr ''Free'')]]
      ''Over $1000'' = Inr [[(''price'', JStr ''Free'')]]"
    by (simp add: filter_eval)
  have m: "map_of [(''price'', JStr ''Free'')] ''price'' = Some (JStr ''Free'')"
    by simp
  have "[(''price'', JStr ''Free'')] \<in> set [[(''price'', JStr ''Free'')]]"
    using no_digit_price_kept [OF recognized_labels(5) f _ m _ price_digits_examples(1)]
    by simp
  with f m show ?thesis
    by (simp add: recognized_labels price_digits_examples)
qed

section \<open>Absent and empty prices\<close>

text \<open>
  C9: for every recognized budget label, a product whose price field is missing or is the
  empty string is not in the output of \<^verbatim>\<open>filter_by_budget\<close>, while a product whose
  price is a non-empty string without digits is.
\<close>

theorem absent_price_not_kept:
  assumes "recognized b" and "filter_by_budget ps b = Inr out"
  shows "(\<forall>p\<in>set ps. map_of p ''price'' = None \<or> map_of p ''price'' = Some (JStr '''')
            \<longrightarrow> p \<notin> set out) \<and>
         (\<forall>p\<in>set ps. \<forall>s. map_of p ''price'' = Some (JStr s) \<and> s \<noteq> [] \<and> price_digits s = []
            \<longrightarrow> p \<in> set out)"
proof -
  from assms(1) obtain mn mx where r: "map_of budget_ranges b = Some (mn, mx)"
    using recognized_range by blast
  note out = filter_by_budget_Inr(2) [OF r assms(2)]
  have "\<not> kept mn mx p"
    if "map_of p ''price'' = None \<or> map_of p ''price'' = Some (JStr '''')" for p
    using that by (auto simp: kept_def dict_get_def)
  moreover have "kept mn mx p"
    if "map_of p ''price'' = Some (JStr s) \<and> s \<noteq> [] \<and> price_digits s = []" for p s
    using that by (simp add: kept_def dict_get_def)
  ultimately show ?thesis
    unfolding out by auto
qed

theorem absent_price_not_kept_witness:
  "recognized ''$100 - $300'' \<and>
   filter_by_budget
     [[(''title'', JStr ''Desk lamp'')], [(''price'', JStr '''')], [(''price'', JStr ''Free'')]]
     ''$100 - $300'' = Inr [[(''price'', JStr ''Free'')]] \<and>
   [(''title'', JStr ''Desk lamp'')] \<notin> set [[(''price'', JStr ''Free'')]] \<and>
   [(''price'', JStr '''')] \<notin> set [[(''price'', JStr ''Free'')]] \<and>
   [(''price'', JStr ''Free'')] \<in> set [[(''price'', JStr ''Free'')]]"
proof -
  have f: "filter_by_budget
     [[(''title'', JStr ''Desk lamp'')], [(''price'', JStr '''')], [(''price'', JStr ''Free'')]]
     ''$100 - $300'' = Inr [[(''price'', JStr ''Free'')]]"
    by (simp add: filter_eval)
  show ?thesis
    using absent_price_not_kept [OF recognized_labels(2) f] f
    by (simp add: recognized_labels price_digits_examples)
qed

section \<open>The ends of a bracket\<close>

text \<open>
  C3, as stated, fails: under \<^verbatim>\<open>"Under $100"\<close>, whose upper bound is 100, a product
  priced \<^verbatim>\<open>"$100.00"\<close> parses to exactly 100 and is kept. The test is
  \<^verbatim>\<open>min_price <= price <= max_price\<close>.
\<close>

theorem price_at_max_kept:
  "map_of budget_ranges ''Under $100'' = Some (Fin 0, Fin 100) \<and>
   price_of (price_digits ''$100.00'') = Inr (Fin 100) \<and>
   filter_by_budget [[(''price'', JStr ''$100.00'')]] ''Under $100''
     = Inr [[(''price'', JStr ''$100.00'')]]"
  by (simp add: filter_eval)

text \<open>
  C3, amended: for every recognized budget bracket with a finite upper bound max, a
  product with a parsed price is kept exactly when min \<open>\<le>\<close> price \<open>\<le>\<close> max; a product whose
  parsed price equals exactly max is kept: the ranges are closed, [min, max].
\<close>

theorem bracket_closed_at_max:
  assumes "map_of budget_ranges b = Some (mn, Fin mx)"
    and "filter_by_budget ps b = Inr out"
    and "p \<in> set ps"
    and "map_of p ''price'' = Some (JStr s)"
    and "price_digits s \<noteq> []"
    and "price_of (price_digits s) = Inr price"
  shows "(p \<in> set out \<longleftrightarrow> fle mn price \<and> fle price (Fin mx)) \<and>
         (price = Fin mx \<longrightarrow> p \<in> set out)"
proof -
  from assms(5) have "s \<noteq> []"
    by (auto simp: price_digits_def remove_char_def)
  then have k: "kept mn (Fin mx) p \<longleftrightarrow> fle mn price \<and> fle price (Fin mx)"
    using assms(4-6) by (simp add: kept_def dict_get_def)
  have "fle mn (Fin mx)"
    using range_ordered [OF assms(1)] .
  then have "price = Fin mx \<longrightarrow> fle mn price \<and> fle price (Fin mx)"
    by simp
  with k assms(3) show ?thesis
    unfolding filter_by_budget_Inr(2) [OF assms(1,2)] by simp
qed

theorem bracket_closed_at_max_witness:
  "map_of budget_ranges ''$100 - $300'' = Some (Fin 100, Fin 300) \<and>
   filter_by_budget [[(''price'', JStr ''$300.00'')], [(''price'', JStr ''$300.01'')]]
     ''$100 - $300'' = Inr [[(''price'', JStr ''$300.00'')]] \<and>
   price_of (price_digits ''$300.00'') = Inr (Fin 300) \<and>
   [(''price'', JStr ''$300.00'')] \<in> set [[(''price'', JStr ''$300.00'')]]"
proof -
  have r: "map_of budget_ranges ''$100 - $300'' = Some (Fin 100, Fin 300)"
    by (simp add: budget_ranges_def)
  have d: "price_digits ''$300.00'' = ''30000''" "price_digits ''$300.01'' = ''30001''"
    by (simp_all add: price_digits_def remove_char_def isdigit_def ascii_digit_def)
  have v: "price_of ''30000'' = Inr (Fin 300)"
    "price_of ''30001'' = Inr (Fin (1319457933796311 / 4398046511104))"
    by (simp_all add: price_of_digits digits_val_def ascii_digit_def round64_numeral
        fdiv_100 round64_examples)
  have f: "filter_by_budget [[(''price'', JStr ''$300.00'')], [(''price'', JStr ''$300.01'')]]
     ''$100 - $300'' = Inr [[(''price'', JStr ''$300.00'')]]"
    by (simp add: filter_by_budget_def budget_ranges_def dict_get_def d v)
  have m: "map_of [(''price'', JStr ''$300.00'')] ''price'' = Some (JStr ''$300.00'')"
    by simp
  have p: "price_of (price_digits ''$300.00'') = Inr (Fin 300)"
    by (simp add: d v)
  have "[(''price'', JStr ''$300.00'')] \<in> set [[(''price'', JStr ''$300.00'')]]"
    using bracket_closed_at_max [OF r f _ m _ p] by (simp add: d)
  with r f p show ?thesis by simp
qed

section \<open>Price parsing\<close>

lemma float_str_1299: "float_str ''1299.99'' = Inr (Fin (5717416483970089 / 4398046511104))"
  by (simp add: float_str_def strip_by_def float_space_def remove_char_def ascii_lower_def
      parse_decimal_def parse_exponent_def scale10_def digits_val_def ascii_digit_def Let_def
      round64_examples)

text \<open>
  C4: the price is the one that the specification describes, for every price string
  whose digit characters are decimal digits and that has at least one: the digits left
  after stripping commas and periods, read as an integer, divided by 100 when there are
  more than two, otherwise the whole-dollar integer. The price is a float: with at most
  two digits it is the integer itself, and with three to fifteen digits it is the float
  nearest to the integer over 100. \<^verbatim>\<open>"$1,299.99"\<close> parses to the float 1299.99 and is
  kept by \<^verbatim>\<open>"Over $1000"\<close>; under \<^verbatim>\<open>"Under $100"\<close>, \<^verbatim>\<open>"$45.00"\<close> is kept and
  \<^verbatim>\<open>"$150.00"\<close> is dropped.
\<close>

theorem price_parsing:
  "((\<forall>c\<in>set s. isdigit c \<longrightarrow> ascii_digit c) \<and> spec_digits s \<noteq> [] \<longrightarrow>
      price_digits s = spec_digits s \<and>
      price_of (price_digits s) = Inr (spec_price s) \<and>
      (length (spec_digits s) \<le> 2 \<longrightarrow>
         spec_price s = Fin (of_nat (digits_val (spec_digits s)))) \<and>
      (2 < length (spec_digits s) \<and> length (spec_digits s) \<le> 15 \<longrightarrow>
         spec_price s = round64 (of_nat (digits_val (spec_digits s)) / 100))) \<and>
   price_digits ''$1,299.99'' = ''129999'' \<and>
   price_of (price_digits ''$1,299.99'') = float_str ''1299.99'' \<and>
   float_str ''1299.99'' = Inr (Fin (5717416483970089 / 4398046511104)) \<and>
   filter_by_budget [[(''price'', JStr ''$1,299.99'')]] ''Over $1000''
     = Inr [[(''price'', JStr ''$1,299.99'')]] \<and>
   filter_by_budget [[(''price'', JStr ''$45.00'')], [(''price'', JStr ''$150.00'')]]
     ''Under $100'' = Inr [[(''price'', JStr ''$45.00'')]]"
proof -
  have general: "price_digits s = spec_digits s \<and>
      price_of (price_digits s) = Inr (spec_price s) \<and>
      (length (spec_digits s) \<le> 2 \<longrightarrow>
         spec_price s = Fin (of_nat (digits_val (spec_digits s)))) \<and>
      (2 < length (spec_digits s) \<and> length (spec_digits s) \<le> 15 \<longrightarrow>
         spec_price s = round64 (of_nat (digits_val (spec_digits s)) / 100))"
    if a: "\<forall>c\<in>set s. isdigit c \<longrightarrow> ascii_digit c" and n: "spec_digits s \<noteq> []"
  proof -
    let ?ds = "spec_digits s"
    have e: "price_digits s = ?ds"
      using a
      by (auto simp: price_digits_def spec_digits_def remove_char_def isdigit_def
          intro!: filter_cong)
    have la: "list_all ascii_digit ?ds"
      by (simp add: spec_digits_def list_all_iff)
    have p: "price_of (price_digits s) = Inr (spec_price s)"
      by (simp add: e price_of_digits [OF n la] fdiv_100 spec_price_def Let_def)
    have exact: "round64 (of_nat (digits_val ?ds)) = Fin (of_nat (digits_val ?ds))"
      if "length ?ds \<le> 15"
    proof -
      have "digits_val ?ds < 10 ^ length ?ds"
        by (rule digits_val_bound [OF la])
      also have "(10::nat) ^ length ?ds \<le> 10 ^ 15"
        using that by (intro power_increasing) simp_all
      also have "(10::nat) ^ 15 < 2 ^ 53"
        by simp
      finally show ?thesis
        by (rule round64_of_nat)
    qed
    have whole: "spec_price s = Fin (of_nat (digits_val ?ds))" if "length ?ds \<le> 2"
      using that exact by (simp add: spec_price_def Let_def)
    have cents: "spec_price s = round64 (of_nat (digits_val ?ds) / 100)"
      if "2 < length ?ds \<and> length ?ds \<le> 15"
      using that exact by (simp add: spec_price_def Let_def)
    from e p whole cents show ?thesis
      by blast
  qed
  have concrete: "price_digits ''$1,299.99'' = ''129999'' \<and>
     price_of (price_digits ''$1,299.99'') = float_str ''1299.99'' \<and>
     float_str ''1299.99'' = Inr (Fin (5717416483970089 / 4398046511104)) \<and>
     filter_by_budget [[(''price'', JStr ''$1,299.99'')]] ''Over $1000''
       = Inr [[(''price'', JStr ''$1,299.99'')]] \<and>
     filter_by_budget [[(''price'', JStr ''$45.00'')], [(''price'', JStr ''$150.00'')]]
       ''Under $100'' = Inr [[(''price'', JStr ''$45.00'')]]"
    by (simp add: filter_eval float_str_1299)
  from general concrete show ?thesis
    by blast
qed

theorem price_parsing_witness:
  "spec_digits ''$45.00'' \<noteq> [] \<and>
   price_digits ''$45.00'' = ''4500'' \<and> spec_price ''$45.00'' = Fin 45 \<and>
   price_of (price_digits ''$45.00'') = Inr (Fin 45)"
proof -
  have a: "\<forall>c\<in>set ''$45.00''. isdigit c \<longrightarrow> ascii_digit c"
    by (simp add: isdigit_def ascii_digit_def)
  have s: "spec_digits ''$45.00'' = ''4500''"
    by (simp add: spec_digits_def ascii_digit_def)
  have n: "spec_digits ''$45.00'' \<noteq> []"
    by (simp add: s)
  have l: "2 < length (spec_digits ''$45.00'') \<and> length (spec_digits ''$45.00'') \<le> 15"
    by (simp add: s)
  from price_parsing [of "''$45.00''"] a n l
  have p: "price_of (price_digits ''$45.00'') = Inr (spec_price ''$45.00'')"
    and v: "spec_price ''$45.00'' = round64 (of_nat (digits_val (spec_digits ''$45.00'')) / 100)"
    by blast+
  from v have v': "spec_price ''$45.00'' = Fin 45"
    by (simp add: s digits_val_def round64_numeral)
  from p have "price_of (price_digits ''$45.00'') = Inr (Fin 45)"
    by (simp only: v')
  with n v' show ?thesis
    by (simp only: price_digits_examples simp_thms)
qed

section \<open>Idempotence and the shape of the output\<close>

text \<open>
  C5: for every recognized budget label, \<^verbatim>\<open>filter_by_budget\<close> applied to its own output
  with the same label returns that output unchanged.
\<close>

theorem filter_by_budget_idempotent:
  assumes "recognized b" and "filter_by_budget ps b = Inr out"
  shows "filter_by_budget out b = Inr out"
proof -
  from assms(1) obtain mn mx where r: "map_of budget_ranges b = Some (mn, mx)"
    using recognized_range by blast
  note o = filter_by_budget_Inr [OF r assms(2)]
  from o have "list_all price_readable out"
    by (simp add: list_all_iff)
  from filter_loop_returns [OF this, of mn mx "[]"] show ?thesis
    by (simp add: filter_by_budget_range [OF r] o(2))
qed

theorem filter_by_budget_idempotent_witness:
  "recognized ''Under $100'' \<and>
   filter_by_budget
     [[(''price'', JStr ''$45.00'')], [(''price'', JStr ''$150.00'')], [(''price'', JStr ''Free'')]]
     ''Under $100'' = Inr [[(''price'', JStr ''$45.00'')], [(''price'', JStr ''Free'')]] \<and>
   filter_by_budget [[(''price'', JStr ''$45.00'')], [(''price'', JStr ''Free'')]] ''Under $100''
     = Inr [[(''price'', JStr ''$45.00'')], [(''price'', JStr ''Free'')]]"
proof -
  have f: "filter_by_budget
     [[(''price'', JStr ''$45.00'')], [(''price'', JStr ''$150.00'')], [(''price'', JStr ''Free'')]]
     ''Under $100'' = Inr [[(''price'', JStr ''$45.00'')], [(''price'', JStr ''Free'')]]"
    by (simp add: filter_eval)
  from filter_by_budget_idempotent [OF recognized_labels(1) f] f show ?thesis
    by (simp add: recognized_labels)
qed

text \<open>
  C10: the output of \<^verbatim>\<open>filter_by_budget\<close> is an order-preserving sublist of its input:
  the records kept are the input records themselves, in their order, and nothing else.
\<close>

theorem filter_by_budget_sublist:
  assumes "filter_by_budget ps b = Inr out"
  shows "subseq out ps \<and> set out \<subseteq> set ps \<and> (\<exists>keep. out = filter keep ps)"
proof (cases "map_of budget_ranges b")
  case None
  with assms have "out = ps"
    by (simp add: filter_by_budget_def split: if_splits)
  moreover have "ps = filter (\<lambda>_. True) ps" by simp
  ultimately show ?thesis by blast
next
  case (Some r)
  then obtain mn mx where "map_of budget_ranges b = Some (mn, mx)"
    by (cases r) simp
  from filter_by_budget_Inr(2) [OF this assms] show ?thesis
    by auto
qed

theorem filter_by_budget_sublist_witness:
  "filter_by_budget
     [[(''price'', JStr ''$150.00'')], [(''price'', JStr ''Free'')], [(''price'', JStr ''$45.00'')]]
     ''Under $100'' = Inr [[(''price'', JStr ''Free'')], [(''price'', JStr ''$45.00'')]] \<and>
   subseq [[(''price'', JStr ''Free'')], [(''price'', JStr ''$45.00'')]]
     [[(''price'', JStr ''$150.00'')], [(''price'', JStr ''Free'')], [(''price'', JStr ''$45.00'')]]"
proof -
  have f: "filter_by_budget
     [[(''price'', JStr ''$150.00'')], [(''price'', JStr ''Free'')], [(''price'', JStr ''$45.00'')]]
     ''Under $100'' = Inr [[(''price'', JStr ''Free'')], [(''price'', JStr ''$45.00'')]]"
    by (simp add: filter_eval)
  from filter_by_budget_sublist [OF f] f show ?thesis
    by blast
qed

section \<open>Properties of the average rating\<close>







text \<open>
  The arithmetic is that of the floats. The ratings \<^verbatim>\<open>"4.5"\<close> and \<^verbatim>\<open>"4.6"\<close> have the
  float sum 9.1 and the float mean 4.55, which lies below the decimal 4.55, so that the
  response carries 4.5. A rating beyond the range of the floats is an infinity.
\<close>

lemma rating_floats:
  "round64 (23 / 5) = Fin (2589569785738035 / 562949953421312)"
  "round64 (5122844576133939 / 562949953421312) = Fin (5122844576133939 / 562949953421312)"
  "round64 (5122844576133939 / 1125899906842624)
     = Fin (5122844576133939 / 1125899906842624)"
  using round64_eqI [of 2 "23 / 5" 5179139571476070]
    round64_eqI [of 3 "5122844576133939 / 562949953421312" 5122844576133939]
    round64_eqI [of 2 "5122844576133939 / 1125899906842624" 5122844576133939]
  by simp_all

lemma float_str_ratings:
  "float_str ''4.5'' = Inr (Fin (9 / 2))"
  "float_str ''4.6'' = Inr (Fin (2589569785738035 / 562949953421312))"
  "float_str ''3.0'' = Inr (Fin 3)"
  by (simp_all add: float_str_def strip_by_def float_space_def remove_char_def
      ascii_lower_def parse_decimal_def parse_exponent_def scale10_def digits_val_def
      ascii_digit_def Let_def round64_examples rating_floats round64_numeral)

lemma avg_rating_rounded_example:
  "avg_rating [[(''rating'', JStr ''4.5'')], [(''rating'', JStr ''4.6'')]]
     = Inr (Fin (5122844576133939 / 1125899906842624))"
  "py_round1 (Fin (5122844576133939 / 1125899906842624)) = Fin (9 / 2)"
proof -
  show "avg_rating [[(''rating'', JStr ''4.5'')], [(''rating'', JStr ''4.6'')]]
     = Inr (Fin (5122844576133939 / 1125899906842624))"
    by (simp add: avg_rating_def dict_get_def py_sum_def fdiv_of_nat float_str_ratings
        round64_examples rating_floats)
  have "round_half_even (5122844576133939 / 1125899906842624 * 10) = 45"
    by (rule round_half_even_eqI) simp_all
  then show "py_round1 (Fin (5122844576133939 / 1125899906842624)) = Fin (9 / 2)"
    by (simp add: round64_examples)
qed

lemma round64_overflow:
  assumes "2 ^ 1024 \<le> r"
  shows "round64 r = PInf"
proof -
  have pos: "0 < r"
    using assms by (rule less_le_trans [rotated]) simp
  let ?e = "ilog2 r"
  note b = ilog2_bounds [OF pos]
  have e: "1024 \<le> ?e"
  proof (rule ccontr)
    assume "\<not> 1024 \<le> ?e"
    then have "?e + 1 \<le> 1024"
      by simp
    then have "(2::rat) powi (?e + 1) \<le> 2 powi 1024"
      by (intro power_int_increasing) simp_all
    with b(2) assms show False
      by simp
  qed
  let ?q = "(2::rat) powi (?e - 52)"
  have q: "0 < ?q"
    by simp
  have split: "(2::rat) powi ?e = 2 ^ 52 * ?q"
    using power_int_add [of "2::rat" 52 "?e - 52"] by simp
  have "(2::rat) ^ 52 \<le> r / ?q"
    using b(1) q by (simp add: split pos_le_divide_eq)
  then have "(of_int (2 ^ 52) :: rat) \<le> r / ?q"
    by simp
  then have "2 ^ 52 \<le> \<lfloor>r / ?q\<rfloor>"
    by (simp only: le_floor_iff)
  moreover have "\<lfloor>r / ?q\<rfloor> \<le> round_half_even (r / ?q)"
    by (simp add: round_half_even_def Let_def)
  ultimately have "2 ^ 52 \<le> round_half_even (r / ?q)"
    by linarith
  then have "(of_int (2 ^ 52) :: rat) \<le> of_int (round_half_even (r / ?q))"
    by (simp only: of_int_le_iff)
  then have c: "(2::rat) ^ 52 \<le> of_int (round_half_even (r / ?q))"
    by simp
  have "(2::rat) ^ 1024 \<le> 2 powi ?e"
    using power_int_increasing [of 1024 ?e "2::rat"] e by simp
  also have "\<dots> = 2 ^ 52 * ?q"
    by (rule split)
  also have "\<dots> \<le> of_int (round_half_even (r / ?q)) * ?q"
    by (rule mult_right_mono [OF c less_imp_le [OF q]])
  finally have big: "2 ^ 1024 \<le> of_int (round_half_even (r / ?q)) * ?q" .
  have m: "max ?e (- 1022) = ?e"
    using e by simp
  show ?thesis
    using pos big by (simp add: round64_def Let_def m)
qed

lemma float_str_beyond_range: "float_str ''1e400'' = Inr PInf"
proof -
  have "round64 (10 ^ 400) = PInf"
    by (rule round64_overflow) simp
  then show ?thesis
    by (simp add: float_str_def strip_by_def float_space_def remove_char_def
      ascii_lower_def parse_decimal_def parse_exponent_def scale10_def digits_val_def
      ascii_digit_def Let_def)
qed




section \<open>The failure exits of the handler\<close>

text \<open>
  C6: for every request whose query is empty, or empty after stripping white space, or
  absent, the handler returns status 400 with an error message and does nothing to the
  outside: no search call, no generation call.
\<close>

theorem empty_query_rejected:
  assumes "strip (get_or (rq_query d) '''') = []"
  shows "search w d = (Inr (Response 400 (ErrorBody ''Please enter a search query'')), [])"
  using assms by (simp add: search_def Let_def)

theorem empty_query_rejected_witness:
  "strip (get_or (rq_query
      \<lparr>rq_query = Some [CHR '' '', CHR 0x09, CHR '' ''], rq_category = Some ''Audio'',
       rq_budget_range = Some ''Under $100'', rq_num_results = Some (JInt 5),
       rq_brand_preference = Some ''Acme'', rq_feature_priority = None\<rparr>) '''') = [] \<and>
   search
     \<lparr>post = (\<lambda>q n. Decoded (Some [[(''price'', JStr ''$45.00'')]])),
      generate = (\<lambda>ps prefs b c. GenText ''text'')\<rparr>
     \<lparr>rq_query = Some [CHR '' '', CHR 0x09, CHR '' ''], rq_category = Some ''Audio'',
      rq_budget_range = Some ''Under $100'', rq_num_results = Some (JInt 5),
      rq_brand_preference = Some ''Acme'', rq_feature_priority = None\<rparr>
   = (Inr (Response 400 (ErrorBody ''Please enter a search query'')), [])"
proof -
  let ?d = "\<lparr>rq_query = Some [CHR '' '', CHR 0x09, CHR '' ''], rq_category = Some ''Audio'',
      rq_budget_range = Some ''Under $100'', rq_num_results = Some (JInt 5),
      rq_brand_preference = Some ''Acme'', rq_feature_priority = None\<rparr>"
  have e: "strip (get_or (rq_query ?d) '''') = []"
    by (simp add: get_or_def strip_def strip_by_def isspace_def)
  from empty_query_rejected [OF e] e show ?thesis
    by blast
qed

text \<open>
  C7: for every request in which the search client is called and returns an empty
  product list, the handler returns status 404 with an error message, and there is no
  call of the generation step.
\<close>

theorem no_products_not_found:
  assumes "strip (get_or (rq_query d) '''') \<noteq> []"
    and "search_products_serper w
           (enhanced_query (get_or (rq_query d) '''') (get_or (rq_category d) ''Other'')
              (get_or (rq_brand_preference d) ''''))
           (get_or (rq_num_results d) (JInt 10)) = ([], ev)"
  shows "search w d =
           (Inr (Response 404
              (ErrorBody ''No products found. Try adjusting your search query.'')), ev) \<and>
         filter is_generate_call ev = []"
proof -
  from assms have "search w d =
      (Inr (Response 404
         (ErrorBody ''No products found. Try adjusting your search query.'')), ev)"
    by (simp add: search_def Let_def)
  moreover from assms(2) have "filter is_generate_call ev = []"
    by (auto simp: search_products_serper_def split: http_result.splits option.splits)
  ultimately show ?thesis by simp
qed

theorem no_products_not_found_witness:
  "search
     \<lparr>post = (\<lambda>q n. StatusRaised ''403 Client Error''),
      generate = (\<lambda>ps prefs b c. GenText ''text'')\<rparr>
     \<lparr>rq_query = Some ''lamp'', rq_category = Some ''Home'', rq_budget_range = None,
      rq_num_results = None, rq_brand_preference = None, rq_feature_priority = None\<rparr>
   = (Inr (Response 404 (ErrorBody ''No products found. Try adjusting your search query.'')),
      [SearchCall ''Home lamp'' (JInt 10),
       Print ''Error fetching products: 403 Client Error''])"
proof -
  let ?w = "\<lparr>post = (\<lambda>q n. StatusRaised ''403 Client Error''),
      generate = (\<lambda>ps prefs b c. GenText ''text'')\<rparr>"
  let ?d = "\<lparr>rq_query = Some ''lamp'', rq_category = Some ''Home'', rq_budget_range = None,
      rq_num_results = None, rq_brand_preference = None, rq_feature_priority = None\<rparr>"
  have q: "strip (get_or (rq_query ?d) '''') \<noteq> []"
    by (simp add: get_or_def strip_def strip_by_def isspace_def)
  have s: "search_products_serper ?w
           (enhanced_query (get_or (rq_query ?d) '''') (get_or (rq_category ?d) ''Other'')
              (get_or (rq_brand_preference ?d) ''''))
           (get_or (rq_num_results ?d) (JInt 10))
         = ([], [SearchCall ''Home lamp'' (JInt 10),
                 Print ''Error fetching products: 403 Client Error''])"
    by (simp add: search_products_serper_def enhanced_query_def get_or_def)
  from no_products_not_found [OF q s] show ?thesis
    by blast
qed

section \<open>Failures of the outbound calls\<close>

text \<open>
  C8: a failure of an outbound call does not reach the handler as an exception. When a
  library call of the search client raises (the transport, the status check, the
  decoding of the body), \<^verbatim>\<open>search_products_serper\<close> returns the empty list, and the
  handler answers; when the generation raises, \<^verbatim>\<open>get_ai_recommendations\<close> returns
  an error message as the recommendation text.
\<close>

theorem upstream_failures_swallowed:
  "(search_failed (post w q n) \<longrightarrow> fst (search_products_serper w q n) = []) \<and>
   ((\<forall>q n. search_failed (post w q n)) \<longrightarrow> \<not> isl (fst (search w d))) \<and>
   (generate w (take 10 ps) prefs b c = GenRaised e \<longrightarrow>
      fst (get_ai_recommendations w ps prefs b c) = ''Error generating recommendations: '' @ e)"
proof -
  have client: "fst (search_products_serper w q n) = []" if "search_failed (post w q n)" for q n
    using that by (cases "post w q n") (simp_all add: search_products_serper_def)
  have handler: "\<not> isl (fst (search w d))" if "\<forall>q n. search_failed (post w q n)"
  proof -
    have "fst (search_products_serper w q n) = []" for q n
      using that client by blast
    then show ?thesis
      by (simp add: search_def Let_def split_beta)
  qed
  have gen: "fst (get_ai_recommendations w ps prefs b c)
      = ''Error generating recommendations: '' @ e"
    if "generate w (take 10 ps) prefs b c = GenRaised e"
    using that by (simp add: get_ai_recommendations_def)
  from client handler gen show ?thesis
    by blast
qed

theorem upstream_failures_swallowed_witness:
  "fst (search_products_serper
      \<lparr>post = (\<lambda>q n. PostRaised ''timed out''),
       generate = (\<lambda>ps prefs b c. GenRaised ''quota exceeded'')\<rparr> ''lamp'' (JInt 10)) = [] \<and>
   \<not> isl (fst (search
      \<lparr>post = (\<lambda>q n. PostRaised ''timed out''),
       generate = (\<lambda>ps prefs b c. GenRaised ''quota exceeded'')\<rparr>
      \<lparr>rq_query = Some ''lamp'', rq_category = None, rq_budget_range = None,
       rq_num_results = None, rq_brand_preference = None, rq_feature_priority = None\<rparr>)) \<and>
   fst (get_ai_recommendations
      \<lparr>post = (\<lambda>q n. PostRaised ''timed out''),
       generate = (\<lambda>ps prefs b c. GenRaised ''quota exceeded'')\<rparr>
      [[(''price'', JStr ''$45.00'')]] ''lamp'' ''Under $100'' ''Other'')
     = ''Error generating recommendations: quota exceeded''"
proof -
  let ?w = "\<lparr>post = (\<lambda>q n. PostRaised ''timed out''),
       generate = (\<lambda>ps prefs b c. GenRaised ''quota exceeded'')\<rparr>"
  let ?d = "\<lparr>rq_query = Some ''lamp'', rq_category = None, rq_budget_range = None,
       rq_num_results = None, rq_brand_preference = None, rq_feature_priority = None\<rparr>"
  have f: "search_failed (post ?w q n)" for q n
    by simp
  have g: "generate ?w (take 10 [[(''price'', JStr ''$45.00'')]]) ''lamp'' ''Under $100'' ''Other''
      = GenRaised ''quota exceeded''"
    by simp
  from upstream_failures_swallowed
    [of ?w "''lamp''" "JInt 10" ?d "[[(''price'', JStr ''$45.00'')]]" "''lamp''"
      "''Under $100''" "''Other''" "''quota exceeded''"] f g
  show ?thesis
    by simp
qed


end
